theory Spec2Isabelle
  imports Main
begin

section \<open>Data model of the purchase event processor\<close>

text \<open>
  The development embeds \<^verbatim>\<open>src/iaptic-rn/classes/IapEventsProcessor.ts\<close>.
  A purchase reported by the platform carries a product identifier, an optional
  transaction identifier and a payload that the processor never inspects.
\<close>

record Purchase =
  productId :: string
  transactionId :: "string option"
  payload :: nat

record PurchaseError =
  code :: "string option"
  message :: string

datatype PendingState = Idle | Validating | Finishing | Completed

text \<open>
  The three product types the processor branches on, and one constructor for every other
  value \<^verbatim>\<open>products.getType\<close> may return (the \<^verbatim>\<open>switch\<close> has no default branch).
\<close>

datatype ProductType = Consumable | NonConsumable | PaidSubscription | OtherType

datatype IapticErrorSeverity = INFO | WARNING | ERROR

record IapticError =
  cause :: string
  severity :: IapticErrorSeverity

datatype LogLevel = LInfo | LDebug | LWarn

text \<open>Calls to the two external collaborators, in the order they are started.\<close>

datatype call = ValidateCall Purchase | FinishTransaction Purchase bool

text \<open>Domain events published to subscribers.\<close>

datatype event = ErrorEvent IapticError | PendingPurchaseUpdated string PendingState

text \<open>
  The processor object together with the process-wide state it reads and writes:
  the globals table, the fields of \<^verbatim>\<open>IapEventsProcessor\<close> (\<^verbatim>\<open>id\<close>, \<^verbatim>\<open>purchases\<close>,
  the two subscription handles), the timers set by \<^verbatim>\<open>setTimeout\<close> for the cache, the
  listeners registered with the raw event source, the collaborators reached through
  \<^verbatim>\<open>this.iaptic\<close> (pending statuses, product catalog, verified purchases), and the
  observable effects (external calls, domain events, log lines).
\<close>

record sys =
  globals :: "string \<rightharpoonup> string"
  this_id :: string
  purchases :: "string \<rightharpoonup> Purchase"
  timers :: "(nat \<times> string) list"
  now :: nat
  onPurchaseUpdate :: "nat option"
  onPurchaseError :: "nat option"
  updateListeners :: "nat list"
  errorListeners :: "nat list"
  nextHandle :: nat
  pendingPurchases :: "string \<rightharpoonup> PendingState"
  productTypes :: "string \<Rightarrow> ProductType"
  verifiedPurchases :: "string \<Rightarrow> string option \<Rightarrow> nat option"
  calls :: "call list"
  emitted :: "event list"
  logs :: "(LogLevel \<times> string) list"

section \<open>Collaborators\<close>

text \<open>
  Modelled from the spec: \<^verbatim>\<open>functions/globals\<close> (\<^verbatim>\<open>globalsGet\<close>, \<^verbatim>\<open>globalsSet\<close>) is not
  among the sources; the spec describes it as process-wide mutable state holding the
  "active instance" flag. A key never set reads as \<^verbatim>\<open>undefined\<close>, here \<open>None\<close>.
\<close>

definition globalsGet :: "sys \<Rightarrow> string \<Rightarrow> string option" where
  "globalsGet s k = globals s k"

definition globalsSet :: "string \<Rightarrow> string \<Rightarrow> sys \<Rightarrow> sys" where
  "globalsSet k v s = s\<lparr>globals := (globals s)(k \<mapsto> v)\<rparr>"

definition logger :: "LogLevel \<Rightarrow> string \<Rightarrow> sys \<Rightarrow> sys" where
  "logger lvl msg s = s\<lparr>logs := logs s @ [(lvl, msg)]\<rparr>"

definition emit :: "event \<Rightarrow> sys \<Rightarrow> sys" where
  "emit ev s = s\<lparr>emitted := emitted s @ [ev]\<rparr>"

text \<open>
  Modelled from the spec: the Pending-Purchase State Tracker (\<^verbatim>\<open>iaptic.pendingPurchases\<close>)
  is not among the sources. The spec gives \<^verbatim>\<open>getStatus(productId)\<close> as the current state,
  \<^verbatim>\<open>Idle\<close> if unknown, and \<^verbatim>\<open>update(productId, newState)\<close> as an unconditional set, with
  \<^verbatim>\<open>pendingPurchase.updated\<close> emitted as a side effect of the state change.
\<close>

definition getStatus :: "sys \<Rightarrow> string \<Rightarrow> PendingState" where
  "getStatus s p = (case pendingPurchases s p of None \<Rightarrow> Idle | Some st \<Rightarrow> st)"

definition update :: "string \<Rightarrow> PendingState \<Rightarrow> sys \<Rightarrow> sys" where
  "update p st s = emit (PendingPurchaseUpdated p st) (s\<lparr>pendingPurchases := (pendingPurchases s)(p \<mapsto> st)\<rparr>)"

definition getType :: "sys \<Rightarrow> string \<Rightarrow> ProductType" where
  "getType s p = productTypes s p"

definition getPurchase :: "sys \<Rightarrow> string \<Rightarrow> string option \<Rightarrow> nat option" where
  "getPurchase s p t = verifiedPurchases s p t"

text \<open>
  Modelled from the spec: \<^verbatim>\<open>toIapticError\<close> is not among the sources; it turns a thrown
  value into a classified error of the given severity.
\<close>

definition toIapticError :: "string \<Rightarrow> IapticErrorSeverity \<Rightarrow> IapticError" where
  "toIapticError err sev = \<lparr>cause = err, severity = sev\<rparr>"

section \<open>The processor\<close>

definition active_key :: string where
  "active_key = ''active_iap_events_processor''"

text \<open>The constructor draws a fresh random id and records it as the active processor.\<close>

definition constructor :: "string \<Rightarrow> sys \<Rightarrow> sys" where
  "constructor fresh s =
     globalsSet active_key fresh
       (s\<lparr>this_id := fresh, purchases := Map.empty,
          onPurchaseUpdate := None, onPurchaseError := None\<rparr>)"

text \<open>
  \<^verbatim>\<open>IAP.purchaseUpdatedListener\<close> and \<^verbatim>\<open>IAP.purchaseErrorListener\<close> register a callback with
  the raw event source and return a subscription; \<^verbatim>\<open>remove()\<close> on it unregisters it.
\<close>

definition addListeners :: "sys \<Rightarrow> sys" where
  "addListeners s0 =
     (let s = logger LInfo ''addListeners'' s0 in
      if onPurchaseUpdate s \<noteq> None then s
      else s\<lparr>onPurchaseUpdate := Some (nextHandle s),
              onPurchaseError := Some (Suc (nextHandle s)),
              updateListeners := updateListeners s @ [nextHandle s],
              errorListeners := errorListeners s @ [Suc (nextHandle s)],
              nextHandle := Suc (Suc (nextHandle s))\<rparr>)"

definition remove_handle :: "nat option \<Rightarrow> nat list \<Rightarrow> nat list" where
  "remove_handle h ls = (case h of None \<Rightarrow> ls | Some n \<Rightarrow> filter (\<lambda>m. m \<noteq> n) ls)"

definition removeListeners :: "sys \<Rightarrow> sys" where
  "removeListeners s0 =
     (let s = logger LInfo ''removeListeners'' s0 in
      s\<lparr>updateListeners := remove_handle (onPurchaseUpdate s) (updateListeners s),
        errorListeners := remove_handle (onPurchaseError s) (errorListeners s),
        onPurchaseUpdate := None, onPurchaseError := None\<rparr>)"

text \<open>
  Identity under which a purchase is cached (\<^verbatim>\<open>transactionId ?? productId\<close>) and the keys
  the two debounced processors extract (\<^verbatim>\<open>transactionId ?? ''\<close>, \<^verbatim>\<open>code ?? ''\<close>).
\<close>

definition identity :: "Purchase \<Rightarrow> string" where
  "identity p = (case transactionId p of Some t \<Rightarrow> t | None \<Rightarrow> productId p)"

definition purchaseKey :: "Purchase \<Rightarrow> string" where
  "purchaseKey p = (case transactionId p of Some t \<Rightarrow> t | None \<Rightarrow> '''')"

definition errorKey :: "PurchaseError \<Rightarrow> string" where
  "errorKey e = (case code e of Some c \<Rightarrow> c | None \<Rightarrow> '''')"

text \<open>
  Lines 66 to 69: the purchase is stored under its identity and a timer is set that
  deletes that identity 60000 ms later. Time passing fires every timer that is due.
\<close>

definition cache_purchase :: "Purchase \<Rightarrow> sys \<Rightarrow> sys" where
  "cache_purchase p s =
     s\<lparr>purchases := (purchases s)(identity p \<mapsto> p),
       timers := timers s @ [(now s + 60000, identity p)]\<rparr>"

fun fire_timers :: "nat \<Rightarrow> (nat \<times> string) list \<Rightarrow> (string \<rightharpoonup> Purchase) \<Rightarrow> (string \<rightharpoonup> Purchase)" where
  "fire_timers t [] m = m"
| "fire_timers t ((due, k) # rest) m =
     fire_timers t rest (if due \<le> t then m(k := None) else m)"

definition elapse :: "nat \<Rightarrow> sys \<Rightarrow> sys" where
  "elapse d s =
     s\<lparr>purchases := fire_timers (now s + d) (timers s) (purchases s),
       timers := filter (\<lambda>(due, k). now s + d < due) (timers s),
       now := now s + d\<rparr>"

text \<open>
  \<^verbatim>\<open>processPurchase\<close> is an async function: it runs until its next \<^verbatim>\<open>await\<close>, and is
  resumed when the awaited promise settles. A task records where an invocation is
  suspended, or how it ended: \<open>Done (Inl e)\<close> is the classified error it threw through
  \<^verbatim>\<open>reportError\<close>, \<open>Done (Inr v)\<close> the value it returned, and \<open>Uncaught\<close> an exception
  of the runtime that no handler of the function catches (the promise rejects with it).
\<close>

datatype retval = Undefined | Fetched "nat option"

datatype js_error = TypeError

datatype task =
    Poll Purchase bool
  | AwaitValidate Purchase bool
  | AwaitFinishUnverified Purchase bool
  | AwaitFinishVerified Purchase bool
  | Done "IapticError + retval"
  | Uncaught js_error

text \<open>
  The value \<^verbatim>\<open>finishTransaction\<close> rejects with is caught as \<^verbatim>\<open>any\<close>: it is \<^verbatim>\<open>null\<close> or
  \<^verbatim>\<open>undefined\<close>, or a value whose properties can be read (\<open>Reason\<close>, with the text it
  prints as). The validation client fails with a classified error (spec, section 6).
\<close>

datatype rejection = Nullish | Reason string

datatype resolution =
    TimerFired
  | ValidateResolved bool
  | ValidateRejected string
  | FinishResolved
  | FinishRejected rejection

definition reportError :: "bool \<Rightarrow> string \<Rightarrow> IapticErrorSeverity \<Rightarrow> sys \<Rightarrow> IapticError + sys" where
  "reportError inBackground err sev s =
     (if inBackground then Inr (emit (ErrorEvent (toIapticError err sev)) s)
      else Inl (toIapticError err sev))"

definition call_finishTransaction :: "Purchase \<Rightarrow> sys \<Rightarrow> sys" where
  "call_finishTransaction p s =
     s\<lparr>calls := calls s @ [FinishTransaction p (getType s (productId p) = Consumable)]\<rparr>"

definition call_validate :: "Purchase \<Rightarrow> sys \<Rightarrow> sys" where
  "call_validate p s = s\<lparr>calls := calls s @ [ValidateCall p]\<rparr>"

text \<open>Lines 59 to 94: from the call to the first suspension.\<close>

definition processPurchase :: "Purchase \<Rightarrow> bool \<Rightarrow> sys \<Rightarrow> sys \<times> task" where
  "processPurchase purchase inBackground s0 =
     (if globalsGet s0 active_key \<noteq> Some (this_id s0) then (s0, Done (Inr Undefined))
      else
        let s1 = logger LInfo ''Processing purchase'' s0;
            s2 = cache_purchase purchase s1
        in if getStatus s2 (productId purchase) = Validating
           then (logger LInfo ''Purchase is already being validated, waiting for status to change'' s2,
                 Poll purchase inBackground)
           else (call_validate purchase (update (productId purchase) Validating s2),
                 AwaitValidate purchase inBackground))"

text \<open>Lines 135 and 136.\<close>

definition complete :: "Purchase \<Rightarrow> sys \<Rightarrow> sys \<times> task" where
  "complete p s =
     (update (productId p) Completed (logger LDebug ''processPurchase completed'' s),
      Done (Inr Undefined))"

text \<open>Lines 116 to 133: the branch on the product type once the purchase is verified.\<close>

definition finish_verified :: "Purchase \<Rightarrow> bool \<Rightarrow> sys \<Rightarrow> sys \<times> task" where
  "finish_verified p bg s =
     (call_finishTransaction p
        (update (productId p) Finishing
           (logger LDebug ''processPurchase is finishing the purchase because it is a non-consumable or paid subscription'' s)),
      AwaitFinishVerified p bg)"

definition handle_verified :: "Purchase \<Rightarrow> bool \<Rightarrow> sys \<Rightarrow> sys \<times> task" where
  "handle_verified p bg s =
     (case getType s (productId p) of
        Consumable \<Rightarrow> complete p s
      | NonConsumable \<Rightarrow> finish_verified p bg s
      | PaidSubscription \<Rightarrow> finish_verified p bg s
      | OtherType \<Rightarrow> complete p s)"

text \<open>
  Resuming a suspended invocation with the outcome of what it awaits. A resolution
  that is not the one the task awaits is not delivered to it.

  The two handlers of a failed \<^verbatim>\<open>finishTransaction\<close> differ. The one of the unverified
  path (line 104) concatenates the caught value into the log message, which works for
  every value. The one of the verified path (line 129) reads \<^verbatim>\<open>finishError.message\<close>:
  on \<^verbatim>\<open>null\<close> or \<^verbatim>\<open>undefined\<close> that read raises a \<^verbatim>\<open>TypeError\<close> inside the catch
  block, which lies after the outer \<^verbatim>\<open>try\<close> of lines 81 to 113, so nothing is logged,
  lines 135 and 136 are not reached and the invocation ends with that exception.
\<close>

fun resume :: "task \<Rightarrow> resolution \<Rightarrow> sys \<Rightarrow> sys \<times> task" where
  "resume (Poll p bg) TimerFired s =
     (if getStatus s (productId p) \<noteq> Validating
      then (s, Done (Inr (Fetched (getPurchase s (productId p) (transactionId p)))))
      else (s, Poll p bg))"
| "resume (AwaitValidate p bg) (ValidateResolved verified) s0 =
     (let s = logger LDebug ''processPurchase has validated the purchase'' s0 in
      if \<not> verified
      then (call_finishTransaction p
              (update (productId p) Finishing
                 (logger LDebug ''processPurchase is finishing the purchase'' s)),
            AwaitFinishUnverified p bg)
      else handle_verified p bg s)"
| "resume (AwaitValidate p bg) (ValidateRejected err) s =
     (case reportError bg err WARNING s of
        Inl e \<Rightarrow> (s, Done (Inl e))
      | Inr s' \<Rightarrow> (s', Done (Inr Undefined)))"
| "resume (AwaitFinishUnverified p bg) FinishResolved s =
     (update (productId p) Completed s, Done (Inr Undefined))"
| "resume (AwaitFinishUnverified p bg) (FinishRejected err) s =
     (update (productId p) Completed
        (logger LInfo ''Failed to finish unverified purchase (this is fine, we tried)'' s),
      Done (Inr Undefined))"
| "resume (AwaitFinishVerified p bg) FinishResolved s = complete p s"
| "resume (AwaitFinishVerified p bg) (FinishRejected Nullish) s = (s, Uncaught TypeError)"
| "resume (AwaitFinishVerified p bg) (FinishRejected (Reason msg)) s =
     complete p (logger LInfo ''Failed to finish unverified purchase'' s)"
| "resume t r s = (s, t)"

text \<open>Lines 139 to 144.\<close>

definition processError :: "PurchaseError \<Rightarrow> sys \<Rightarrow> sys" where
  "processError e s =
     (if globalsGet s active_key \<noteq> Some (this_id s) then s
      else logger LWarn ''IAP.PurchaseError'' s)"

section \<open>Running invocations\<close>

text \<open>
  The \<^verbatim>\<open>while (true)\<close> loop of lines 85 to 90, run against the rest of the process:
  \<open>peer k\<close> is what the other handlers do to the shared state during the \<open>k\<close>-th sleep of
  100 ms. The loop has no exit but the status test, so it is a partial function and
  \<open>None\<close> stands for an invocation that never returns.
\<close>

partial_function (option) wait_while_validating ::
  "(nat \<Rightarrow> sys \<Rightarrow> sys) \<Rightarrow> Purchase \<Rightarrow> bool \<Rightarrow> nat \<Rightarrow> sys \<Rightarrow> (sys \<times> task) option" where
  "wait_while_validating peer p bg k s =
     (let s' = peer k s in
      if getStatus s' (productId p) \<noteq> Validating
      then Some (resume (Poll p bg) TimerFired s')
      else wait_while_validating peer p bg (Suc k) s')"

text \<open>An invocation followed through its wait, up to its end or its first external call.\<close>

definition processPurchase_waiting ::
  "(nat \<Rightarrow> sys \<Rightarrow> sys) \<Rightarrow> Purchase \<Rightarrow> bool \<Rightarrow> sys \<Rightarrow> (sys \<times> task) option" where
  "processPurchase_waiting peer purchase inBackground s =
     (case processPurchase purchase inBackground s of
        (s1, Poll p bg) \<Rightarrow> wait_while_validating peer p bg 0 s1
      | (s1, t) \<Rightarrow> Some (s1, t))"

text \<open>The state the loop sees at its \<open>n\<close>-th wake-up counted from sleep number \<open>k\<close>.\<close>

fun observed :: "(nat \<Rightarrow> sys \<Rightarrow> sys) \<Rightarrow> nat \<Rightarrow> nat \<Rightarrow> sys \<Rightarrow> sys" where
  "observed peer k 0 s = peer k s"
| "observed peer k (Suc n) s = observed peer (Suc k) n (peer k s)"

text \<open>One invocation resumed with a sequence of resolutions, nothing else running.\<close>

fun settle :: "resolution list \<Rightarrow> sys \<times> task \<Rightarrow> sys \<times> task" where
  "settle [] w = w"
| "settle (r # rs) (s, t) = settle rs (resume t r s)"

text \<open>
  Several invocations in one process. Handlers run cooperatively: an action is a new
  call of \<^verbatim>\<open>processPurchase\<close> (run up to its first suspension), the resumption of the
  \<open>i\<close>-th invocation, or time passing.
\<close>

datatype action = Invoke Purchase bool | Resolve nat resolution | Elapse nat

fun exec :: "action \<Rightarrow> sys \<times> task list \<Rightarrow> sys \<times> task list" where
  "exec (Invoke p bg) (s, ts) = (case processPurchase p bg s of (s', t) \<Rightarrow> (s', ts @ [t]))"
| "exec (Resolve i r) (s, ts) =
     (if i < length ts then (case resume (ts ! i) r s of (s', t) \<Rightarrow> (s', ts[i := t]))
      else (s, ts))"
| "exec (Elapse d) (s, ts) = (elapse d s, ts)"

definition run :: "action list \<Rightarrow> sys \<times> task list \<Rightarrow> sys \<times> task list" where
  "run acts w = fold exec acts w"

fun validating_for :: "string \<Rightarrow> task \<Rightarrow> nat" where
  "validating_for P (AwaitValidate p bg) = (if productId p = P then 1 else 0)"
| "validating_for P t = 0"

definition validationsInFlight :: "string \<Rightarrow> sys \<times> task list \<Rightarrow> nat" where
  "validationsInFlight P w = sum_list (map (validating_for P) (snd w))"

fun finishes :: "string \<Rightarrow> call \<Rightarrow> bool" where
  "finishes t (FinishTransaction p c) = (transactionId p = Some t)"
| "finishes t (ValidateCall p) = False"

definition finishCalls :: "string \<Rightarrow> sys \<Rightarrow> nat" where
  "finishCalls t s = length (filter (finishes t) (calls s))"

fun invokes :: "string \<Rightarrow> action \<Rightarrow> bool" where
  "invokes t (Invoke p bg) = (transactionId p = Some t)"
| "invokes t a = False"

definition deliveries :: "string \<Rightarrow> action list \<Rightarrow> nat" where
  "deliveries t acts = length (filter (invokes t) acts)"

text \<open>
  An invocation that still awaits its validation may go on to finalize once; any other
  task has either made its finalize call already or will never make one.
\<close>

fun owed :: "string \<Rightarrow> task \<Rightarrow> nat" where
  "owed t (AwaitValidate p bg) = (if transactionId p = Some t then 1 else 0)"
| "owed t tk = 0"

definition outstanding :: "string \<Rightarrow> task list \<Rightarrow> nat" where
  "outstanding t ts = sum_list (map (owed t) ts)"

section \<open>The coalescing queue\<close>

text \<open>
  Modelled from the spec: the class \<^verbatim>\<open>DebouncedProcessor\<close> is not among the sources.
  The spec gives \<^verbatim>\<open>add(event)\<close>: compute the key; if no processing for the key is
  scheduled, schedule background processing of this event after the coalescing delay;
  if processing for the key is already scheduled or in flight, replace the pending
  payload with the newest event rather than scheduling a second run. The timer firing
  runs the handler on the pending payload; \<open>handled\<close> lists the handler's executions.
\<close>

datatype stage = Scheduled | InFlight

record 'e DebouncedProcessor =
  slots :: "string \<rightharpoonup> ('e \<times> stage)"
  scheduledRuns :: nat
  handled :: "'e list"

definition add :: "('e \<Rightarrow> string) \<Rightarrow> 'e \<Rightarrow> 'e DebouncedProcessor \<Rightarrow> 'e DebouncedProcessor" where
  "add extractKey e q =
     (case slots q (extractKey e) of
        None \<Rightarrow> q\<lparr>slots := (slots q)(extractKey e \<mapsto> (e, Scheduled)),
                  scheduledRuns := Suc (scheduledRuns q)\<rparr>
      | Some (old, st) \<Rightarrow> q\<lparr>slots := (slots q)(extractKey e \<mapsto> (e, st))\<rparr>)"

definition fire :: "string \<Rightarrow> 'e DebouncedProcessor \<Rightarrow> 'e DebouncedProcessor" where
  "fire key q =
     (case slots q key of
        Some (e, Scheduled) \<Rightarrow> q\<lparr>slots := (slots q)(key \<mapsto> (e, InFlight)), handled := handled q @ [e]\<rparr>
      | Some (e, InFlight) \<Rightarrow> q
      | None \<Rightarrow> q)"

definition finished :: "string \<Rightarrow> 'e DebouncedProcessor \<Rightarrow> 'e DebouncedProcessor" where
  "finished key q =
     (case slots q key of
        Some (e, InFlight) \<Rightarrow> q\<lparr>slots := (slots q)(key := None)\<rparr>
      | Some (e, Scheduled) \<Rightarrow> q
      | None \<Rightarrow> q)"

definition add_all :: "('e \<Rightarrow> string) \<Rightarrow> 'e list \<Rightarrow> 'e DebouncedProcessor \<Rightarrow> 'e DebouncedProcessor" where
  "add_all extractKey es q = fold (add extractKey) es q"

definition empty_queue :: "'e DebouncedProcessor" where
  "empty_queue = \<lparr>slots = Map.empty, scheduledRuns = 0, handled = []\<rparr>"

section \<open>Concrete processes\<close>

definition catalog :: "string \<Rightarrow> ProductType" where
  "catalog p =
     (if p = ''coins'' then Consumable
      else if p = ''p1'' then NonConsumable
      else if p = ''sub1'' then PaidSubscription
      else OtherType)"

definition fresh_sys :: sys where
  "fresh_sys =
     \<lparr>globals = Map.empty, this_id = [], purchases = Map.empty, timers = [], now = 0,
      onPurchaseUpdate = None, onPurchaseError = None, updateListeners = [],
      errorListeners = [], nextHandle = 0, pendingPurchases = Map.empty,
      productTypes = catalog, verifiedPurchases = (\<lambda>p t. None),
      calls = [], emitted = [], logs = []\<rparr>"

definition live_sys :: sys where
  "live_sys = constructor ''k3x9'' fresh_sys"

definition stale_sys :: sys where
  "stale_sys = globalsSet active_key ''z7q2'' live_sys"

definition tx42 :: Purchase where
  "tx42 = \<lparr>productId = ''sub1'', transactionId = Some ''tx42'', payload = 0\<rparr>"

definition p1_first :: Purchase where
  "p1_first = \<lparr>productId = ''p1'', transactionId = Some ''t1'', payload = 1\<rparr>"

definition p1_second :: Purchase where
  "p1_second = \<lparr>productId = ''p1'', transactionId = Some ''t2'', payload = 2\<rparr>"

definition p1_third :: Purchase where
  "p1_third = \<lparr>productId = ''p1'', transactionId = Some ''t3'', payload = 3\<rparr>"

definition coins_anon :: Purchase where
  "coins_anon = \<lparr>productId = ''coins'', transactionId = None, payload = 4\<rparr>"

definition sub1_anon :: Purchase where
  "sub1_anon = \<lparr>productId = ''sub1'', transactionId = None, payload = 5\<rparr>"

text \<open>A peer that never touches the state, and one that completes the product at its third step.\<close>

definition idle_peer :: "nat \<Rightarrow> sys \<Rightarrow> sys" where
  "idle_peer k s = s"

definition slow_peer :: "nat \<Rightarrow> sys \<Rightarrow> sys" where
  "slow_peer k s = (if k = 2 then update ''p1'' Completed s else s)"

text \<open>A process in which an earlier validation of \<open>p1\<close> failed and left it \<open>Validating\<close>.\<close>

definition stuck_sys :: sys where
  "stuck_sys = fst (settle [ValidateRejected ''network''] (processPurchase p1_first True live_sys))"

text \<open>
  The same event delivered again after its first processing run has completed (the
  platform redelivers an event whose finalize call failed).
\<close>

definition redelivery :: "action list" where
  "redelivery =
     [Invoke tx42 True, Resolve 0 (ValidateResolved True), Resolve 0 (FinishRejected (Reason ''offline'')),
      Invoke tx42 True, Resolve 1 (ValidateResolved True), Resolve 1 FinishResolved]"

text \<open>
  Three events for the same product: the second arrives while the first is being
  finished, the third after the first has completed.
\<close>

definition overlap_schedule :: "action list" where
  "overlap_schedule =
     [Invoke p1_first True, Resolve 0 (ValidateResolved False),
      Invoke p1_second True, Resolve 0 FinishResolved,
      Invoke p1_third True]"

text \<open>
  The same event processed to completion at time 0 and delivered again 30 seconds later;
  the clock then advances to 60 seconds.
\<close>

definition recache_schedule :: "action list" where
  "recache_schedule =
     [Invoke tx42 True, Resolve 0 (ValidateResolved True), Resolve 0 FinishResolved,
      Elapse 30000, Invoke tx42 True, Elapse 30000]"

text \<open>Three copies of one event, told apart by their payloads only.\<close>

definition burst :: "Purchase list" where
  "burst = [tx42, tx42\<lparr>payload := 1\<rparr>, tx42\<lparr>payload := 2\<rparr>]"

text \<open>A processor whose listeners were added and then removed.\<close>

definition stopped_sys :: sys where
  "stopped_sys = removeListeners (addListeners live_sys)"

section \<open>Basic facts\<close>

lemmas sys_defs = globalsGet_def globalsSet_def logger_def emit_def getStatus_def update_def
  getType_def getPurchase_def toIapticError_def constructor_def cache_purchase_def
  call_finishTransaction_def call_validate_def reportError_def complete_def
  finish_verified_def handle_verified_def processPurchase_def active_key_def identity_def
  elapse_def

lemmas conc_defs = live_sys_def fresh_sys_def catalog_def tx42_def p1_first_def
  p1_second_def p1_third_def coins_anon_def sub1_anon_def

lemma live_sys_live: "globalsGet live_sys active_key = Some (this_id live_sys)"
  by (simp add: sys_defs conc_defs)

lemma stuck_sys_live: "globalsGet stuck_sys active_key = Some (this_id stuck_sys)"
  by (simp add: stuck_sys_def sys_defs conc_defs Let_def)

lemma stuck_sys_validating: "getStatus stuck_sys ''p1'' = Validating"
  by (simp add: stuck_sys_def sys_defs conc_defs Let_def)

text \<open>An invocation that finds the product \<open>Validating\<close> starts no validation and polls.\<close>

lemma enter_wait:
  assumes "globalsGet s active_key = Some (this_id s)"
    and "getStatus s (productId p) = Validating"
  shows "processPurchase p bg s =
      (logger LInfo ''Purchase is already being validated, waiting for status to change''
         (cache_purchase p (logger LInfo ''Processing purchase'' s)), Poll p bg)"
  using assms by (simp add: sys_defs Let_def)

lemma enter_wait_status:
  "getStatus (logger l1 m1 (cache_purchase p (logger l2 m2 s))) q = getStatus s q"
  by (simp add: sys_defs)

section \<open>The polling loop\<close>

lemma wait_some_leaves:
  assumes "wait_while_validating peer p bg k s = Some y"
  shows "\<exists>n. getStatus (observed peer k n s) (productId p) \<noteq> Validating"
proof (rule wait_while_validating.raw_induct
    [where P = "\<lambda>peer p bg k s y. \<exists>n. getStatus (observed peer k n s) (productId p) \<noteq> Validating",
      OF _ assms])
  fix f :: "(nat \<Rightarrow> sys \<Rightarrow> sys) \<Rightarrow> Purchase \<Rightarrow> bool \<Rightarrow> nat \<Rightarrow> sys \<Rightarrow> (sys \<times> task) option"
  fix peer p bg k s y
  assume IH: "\<And>peer p bg k s y. f peer p bg k s = Some y \<Longrightarrow>
                \<exists>n. getStatus (observed peer k n s) (productId p) \<noteq> Validating"
  assume body: "(let s' = peer k s in
                 if getStatus s' (productId p) \<noteq> Validating
                 then Some (resume (Poll p bg) TimerFired s')
                 else f peer p bg (Suc k) s') = Some y"
  show "\<exists>n. getStatus (observed peer k n s) (productId p) \<noteq> Validating"
  proof (cases "getStatus (peer k s) (productId p) \<noteq> Validating")
    case True
    then have "getStatus (observed peer k 0 s) (productId p) \<noteq> Validating" by simp
    then show ?thesis by blast
  next
    case False
    with body have "f peer p bg (Suc k) (peer k s) = Some y" by (simp add: Let_def)
    from IH [OF this] obtain n
      where "getStatus (observed peer (Suc k) n (peer k s)) (productId p) \<noteq> Validating" by blast
    then have "getStatus (observed peer k (Suc n) s) (productId p) \<noteq> Validating" by simp
    then show ?thesis by blast
  qed
qed

lemma wait_never:
  assumes "\<forall>n. getStatus (observed peer k n s) (productId p) = Validating"
  shows "wait_while_validating peer p bg k s = None"
proof (cases "wait_while_validating peer p bg k s")
  case None
  then show ?thesis .
next
  case (Some y)
  from wait_some_leaves [OF this] assms show ?thesis by blast
qed

lemma wait_returns:
  assumes "\<forall>j<n. getStatus (observed peer k j s) (productId p) = Validating"
    and "getStatus (observed peer k n s) (productId p) \<noteq> Validating"
  shows "wait_while_validating peer p bg k s =
         Some (observed peer k n s,
               Done (Inr (Fetched (getPurchase (observed peer k n s) (productId p) (transactionId p)))))"
  using assms
proof (induction n arbitrary: k s)
  case 0
  then show ?case by (subst wait_while_validating.simps) (simp add: Let_def)
next
  case (Suc n)
  from Suc.prems(1) have v0: "getStatus (peer k s) (productId p) = Validating"
    by (metis observed.simps(1) zero_less_Suc)
  have "\<forall>j<n. getStatus (observed peer (Suc k) j (peer k s)) (productId p) = Validating"
    using Suc.prems(1) by (metis observed.simps(2) Suc_less_eq)
  moreover have "getStatus (observed peer (Suc k) n (peer k s)) (productId p) \<noteq> Validating"
    using Suc.prems(2) by simp
  ultimately have "wait_while_validating peer p bg (Suc k) (peer k s) =
         Some (observed peer (Suc k) n (peer k s),
               Done (Inr (Fetched (getPurchase (observed peer (Suc k) n (peer k s))
                                     (productId p) (transactionId p)))))"
    by (rule Suc.IH)
  with v0 show ?case by (subst wait_while_validating.simps) (simp add: Let_def)
qed

lemma observed_idle_peer: "observed idle_peer k n s = s"
  by (induction n arbitrary: k) (simp_all add: idle_peer_def)

section \<open>Claims about the wait for a peer validation\<close>

text \<open>
  Claim C1, as stated, promises that the wait entered when the product is \<open>Validating\<close>
  always ends, by a status change or by a timeout error. The loop has no timeout: in a
  process where an earlier validation failed and left the product \<open>Validating\<close>, and
  nothing else changes the status, the invocation never returns.
\<close>

theorem unbounded_wait_counterexample:
  "processPurchase_waiting idle_peer p1_second True stuck_sys = None"
proof -
  have pid: "productId p1_second = ''p1''" by (simp add: p1_second_def)
  have "getStatus stuck_sys (productId p1_second) = Validating"
    using stuck_sys_validating by (simp add: pid)
  from enter_wait [OF stuck_sys_live this]
  have start: "processPurchase p1_second True stuck_sys =
      (logger LInfo ''Purchase is already being validated, waiting for status to change''
         (cache_purchase p1_second (logger LInfo ''Processing purchase'' stuck_sys)),
       Poll p1_second True)" .
  have "wait_while_validating idle_peer p1_second True 0
          (logger LInfo ''Purchase is already being validated, waiting for status to change''
             (cache_purchase p1_second (logger LInfo ''Processing purchase'' stuck_sys))) = None"
    by (rule wait_never) (simp add: observed_idle_peer enter_wait_status pid stuck_sys_validating)
  with start show ?thesis by (simp add: processPurchase_waiting_def)
qed

text \<open>
  Claim C1, amended: when the product is \<open>Validating\<close> at entry, the invocation polls
  the status with no timeout. If the status is seen to leave \<open>Validating\<close>, first at
  wake-up number \<open>n\<close>, the invocation returns what
  \<^verbatim>\<open>iaptic.purchases.getPurchase(productId, transactionId)\<close> gives at that moment and
  changes nothing itself; if the status never leaves \<open>Validating\<close>, the invocation never
  returns and raises no error.
\<close>

theorem wait_for_peer_validation:
  assumes "globalsGet s active_key = Some (this_id s)"
    and "getStatus s (productId p) = Validating"
  shows "((\<forall>j<n. getStatus (observed peer 0 j (fst (processPurchase p bg s))) (productId p) = Validating)
          \<and> getStatus (observed peer 0 n (fst (processPurchase p bg s))) (productId p) \<noteq> Validating
          \<longrightarrow> processPurchase_waiting peer p bg s =
                Some (observed peer 0 n (fst (processPurchase p bg s)),
                      Done (Inr (Fetched (getPurchase (observed peer 0 n (fst (processPurchase p bg s)))
                                            (productId p) (transactionId p))))))
       \<and> ((\<forall>j. getStatus (observed peer 0 j (fst (processPurchase p bg s))) (productId p) = Validating)
          \<longrightarrow> processPurchase_waiting peer p bg s = None)"
proof -
  from enter_wait [OF assms]
  have "processPurchase_waiting peer p bg s =
        wait_while_validating peer p bg 0 (fst (processPurchase p bg s))"
    by (simp add: processPurchase_waiting_def)
  then show ?thesis
    using wait_returns [of n peer 0 "fst (processPurchase p bg s)" p bg]
      wait_never [of peer 0 "fst (processPurchase p bg s)" p bg]
    by simp
qed

lemma observed_slow_peer:
  "observed slow_peer 0 0 s = s" "observed slow_peer 0 (Suc 0) s = s"
  "observed slow_peer 0 (Suc (Suc 0)) s = update ''p1'' Completed s"
  by (simp_all add: slow_peer_def)

theorem wait_for_peer_validation_witness:
  "globalsGet stuck_sys active_key = Some (this_id stuck_sys)
   \<and> getStatus stuck_sys (productId p1_third) = Validating
   \<and> getStatus (observed slow_peer 0 0 (fst (processPurchase p1_third False stuck_sys)))
        (productId p1_third) = Validating
   \<and> getStatus (observed slow_peer 0 (Suc 0) (fst (processPurchase p1_third False stuck_sys)))
        (productId p1_third) = Validating
   \<and> getStatus (observed slow_peer 0 (Suc (Suc 0)) (fst (processPurchase p1_third False stuck_sys)))
        (productId p1_third) \<noteq> Validating
   \<and> processPurchase_waiting slow_peer p1_third False stuck_sys =
        Some (observed slow_peer 0 (Suc (Suc 0)) (fst (processPurchase p1_third False stuck_sys)),
              Done (Inr (Fetched None)))
   \<and> (\<forall>j. getStatus (observed idle_peer 0 j (fst (processPurchase p1_third False stuck_sys)))
             (productId p1_third) = Validating)
   \<and> processPurchase_waiting idle_peer p1_third False stuck_sys = None"
proof -
  have pid: "productId p1_third = ''p1''" by (simp add: p1_third_def)
  have v: "getStatus stuck_sys (productId p1_third) = Validating"
    using stuck_sys_validating by (simp add: pid)
  note start = enter_wait [OF stuck_sys_live v, of False]
  have seen: "getStatus (fst (processPurchase p1_third False stuck_sys)) ''p1'' = Validating"
    by (simp add: start enter_wait_status stuck_sys_validating)
  have first: "getStatus (observed slow_peer 0 0 (fst (processPurchase p1_third False stuck_sys)))
        (productId p1_third) = Validating"
    by (simp add: slow_peer_def pid seen)
  have second: "getStatus (observed slow_peer 0 (Suc 0) (fst (processPurchase p1_third False stuck_sys)))
        (productId p1_third) = Validating"
    by (simp add: slow_peer_def pid seen)
  from first second
  have early: "\<forall>j<Suc (Suc 0). getStatus (observed slow_peer 0 j (fst (processPurchase p1_third False stuck_sys)))
                          (productId p1_third) = Validating"
    by (simp add: less_Suc_eq)
  have late: "getStatus (observed slow_peer 0 (Suc (Suc 0)) (fst (processPurchase p1_third False stuck_sys)))
        (productId p1_third) \<noteq> Validating"
    by (simp only: observed_slow_peer pid) (simp add: update_def emit_def getStatus_def)
  have never: "\<forall>j. getStatus (observed idle_peer 0 j (fst (processPurchase p1_third False stuck_sys)))
             (productId p1_third) = Validating"
    by (simp add: observed_idle_peer pid seen)
  have fetched: "getPurchase (observed slow_peer 0 (Suc (Suc 0)) (fst (processPurchase p1_third False stuck_sys)))
        (productId p1_third) (transactionId p1_third) = None"
    by (simp only: observed_slow_peer start fst_conv) (simp add: stuck_sys_def sys_defs conc_defs Let_def)
  from wait_for_peer_validation [OF stuck_sys_live v, of "Suc (Suc 0)" slow_peer False]
    early late fetched
  have returns: "processPurchase_waiting slow_peer p1_third False stuck_sys =
        Some (observed slow_peer 0 (Suc (Suc 0)) (fst (processPurchase p1_third False stuck_sys)),
              Done (Inr (Fetched None)))"
    by simp
  from wait_for_peer_validation [OF stuck_sys_live v, of 0 idle_peer False] never
  have hangs: "processPurchase_waiting idle_peer p1_third False stuck_sys = None"
    by simp
  from stuck_sys_live v first second late returns never hangs
  show ?thesis by blast
qed

section \<open>Claims about one invocation\<close>

text \<open>
  Claim C7 (stale-generation discard): when the active processor recorded in the globals
  is not this processor, \<^verbatim>\<open>processPurchase\<close> returns at once and \<^verbatim>\<open>processError\<close> does
  nothing: the whole state is unchanged (no cache entry, no status update, no validation
  or finalize call, no domain event, no log line).
\<close>

theorem stale_generation_discard:
  assumes "globalsGet s active_key \<noteq> Some (this_id s)"
  shows "processPurchase purchase inBackground s = (s, Done (Inr Undefined))
       \<and> processError e s = s"
  using assms by (simp add: processPurchase_def processError_def)

theorem stale_generation_discard_witness:
  "globalsGet stale_sys active_key \<noteq> Some (this_id stale_sys)
   \<and> processPurchase tx42 True stale_sys = (stale_sys, Done (Inr Undefined))
   \<and> processError \<lparr>code = Some ''E_UNKNOWN'', message = ''failed''\<rparr> stale_sys = stale_sys"
proof -
  have h: "globalsGet stale_sys active_key \<noteq> Some (this_id stale_sys)"
    by (simp add: stale_sys_def sys_defs conc_defs)
  from stale_generation_discard [OF h] h show ?thesis by simp
qed

text \<open>
  Claim C9 (validation failure): a live invocation that finds the product not
  \<open>Validating\<close> sets it \<open>Validating\<close> and calls the validation client. When that call
  fails, a foreground invocation throws the classified error and changes nothing; a
  background invocation emits the classified error as an \<open>error\<close> event and changes
  nothing else. Either way the product is left \<open>Validating\<close>.
\<close>

theorem validation_failure_handling:
  assumes "globalsGet s active_key = Some (this_id s)"
    and "getStatus s (productId p) \<noteq> Validating"
  shows "let w1 = processPurchase p bg s; w2 = settle [ValidateRejected err] w1 in
           snd w1 = AwaitValidate p bg \<and> getStatus (fst w1) (productId p) = Validating \<and>
           fst w2 = (if bg then emit (ErrorEvent (toIapticError err WARNING)) (fst w1) else fst w1) \<and>
           snd w2 = (if bg then Done (Inr Undefined) else Done (Inl (toIapticError err WARNING))) \<and>
           pendingPurchases (fst w2) = pendingPurchases (fst w1) \<and>
           purchases (fst w2) = purchases (fst w1) \<and>
           calls (fst w2) = calls (fst w1) \<and>
           getStatus (fst w2) (productId p) = Validating"
  using assms by (simp add: sys_defs Let_def)

theorem validation_failure_handling_witness:
  "globalsGet live_sys active_key = Some (this_id live_sys)
   \<and> getStatus live_sys (productId p1_first) \<noteq> Validating
   \<and> snd (settle [ValidateRejected ''network''] (processPurchase p1_first False live_sys))
        = Done (Inl \<lparr>cause = ''network'', severity = WARNING\<rparr>)
   \<and> snd (settle [ValidateRejected ''network''] (processPurchase p1_first True live_sys))
        = Done (Inr Undefined)
   \<and> emitted (fst (settle [ValidateRejected ''network''] (processPurchase p1_first True live_sys)))
        = [PendingPurchaseUpdated ''p1'' Validating,
           ErrorEvent \<lparr>cause = ''network'', severity = WARNING\<rparr>]
   \<and> getStatus (fst (settle [ValidateRejected ''network''] (processPurchase p1_first False live_sys)))
        (productId p1_first) = Validating"
proof -
  have h: "getStatus live_sys (productId p1_first) \<noteq> Validating"
    by (simp add: sys_defs conc_defs)
  from validation_failure_handling [OF live_sys_live h, of False "''network''"]
    validation_failure_handling [OF live_sys_live h, of True "''network''"]
    live_sys_live h
  show ?thesis by (simp add: sys_defs conc_defs Let_def)
qed

text \<open>
  What the success path does in a live invocation that starts its own validation.
  When the validation answers \<open>verified = false\<close> the status becomes \<open>Finishing\<close>,
  \<^verbatim>\<open>finishTransaction\<close> is called once whatever the product type, and whether that call
  succeeds or fails (with any value) the invocation returns normally with the status
  \<open>Completed\<close>, a failure leaving one line in the log and no \<open>error\<close> event. When it
  answers \<open>verified = true\<close>, a consumable product is completed without any finalize
  call, and a non-consumable or paid-subscription product is finalized once; if that call
  succeeds, or fails with a value whose message can be read, the failure is logged and
  the status becomes \<open>Completed\<close>.
\<close>

lemma success_path:
  assumes "globalsGet s active_key = Some (this_id s)"
    and "getStatus s (productId p) \<noteq> Validating"
    and "fr = FinishResolved \<or> fr = FinishRejected x"
    and "fv = FinishResolved \<or> fv = FinishRejected (Reason m)"
  shows "(let w1 = settle [ValidateResolved False] (processPurchase p bg s); w2 = settle [fr] w1 in
            snd w1 = AwaitFinishUnverified p bg \<and> getStatus (fst w1) (productId p) = Finishing \<and>
            calls (fst w1) = calls s @ [ValidateCall p,
                FinishTransaction p (getType s (productId p) = Consumable)] \<and>
            snd w2 = Done (Inr Undefined) \<and> getStatus (fst w2) (productId p) = Completed \<and>
            calls (fst w2) = calls (fst w1) \<and>
            emitted (fst w2) = emitted (fst w1) @ [PendingPurchaseUpdated (productId p) Completed] \<and>
            logs (fst w2) = logs (fst w1) @
              (if fr = FinishResolved then []
               else [(LInfo, ''Failed to finish unverified purchase (this is fine, we tried)'')]))
       \<and> (getType s (productId p) = Consumable \<longrightarrow>
           (let w1 = settle [ValidateResolved True] (processPurchase p bg s) in
              snd w1 = Done (Inr Undefined) \<and> getStatus (fst w1) (productId p) = Completed \<and>
              calls (fst w1) = calls s @ [ValidateCall p]))
       \<and> (getType s (productId p) = NonConsumable \<or> getType s (productId p) = PaidSubscription \<longrightarrow>
           (let w1 = settle [ValidateResolved True] (processPurchase p bg s); w2 = settle [fv] w1 in
              snd w1 = AwaitFinishVerified p bg \<and> getStatus (fst w1) (productId p) = Finishing \<and>
              calls (fst w1) = calls s @ [ValidateCall p, FinishTransaction p False] \<and>
              snd w2 = Done (Inr Undefined) \<and> getStatus (fst w2) (productId p) = Completed \<and>
              calls (fst w2) = calls (fst w1) \<and>
              emitted (fst w2) = emitted (fst w1) @ [PendingPurchaseUpdated (productId p) Completed] \<and>
              logs (fst w2) = logs (fst w1) @
                (if fv = FinishResolved then []
                 else [(LInfo, ''Failed to finish unverified purchase'')]) @
                [(LDebug, ''processPurchase completed'')]))"
  using assms by (auto simp add: sys_defs Let_def)

lemma success_path_example:
  "snd (settle [ValidateResolved False, FinishRejected Nullish] (processPurchase tx42 True live_sys))
        = Done (Inr Undefined)
   \<and> calls (fst (settle [ValidateResolved False, FinishRejected Nullish]
                    (processPurchase tx42 True live_sys)))
        = [ValidateCall tx42, FinishTransaction tx42 False]
   \<and> calls (fst (settle [ValidateResolved True] (processPurchase coins_anon False live_sys)))
        = [ValidateCall coins_anon]
   \<and> getStatus (fst (settle [ValidateResolved True] (processPurchase coins_anon False live_sys)))
        (productId coins_anon) = Completed
   \<and> calls (fst (settle [ValidateResolved True, FinishRejected (Reason ''declined'')]
                    (processPurchase tx42 True live_sys)))
        = [ValidateCall tx42, FinishTransaction tx42 False]
   \<and> getStatus (fst (settle [ValidateResolved True, FinishRejected (Reason ''declined'')]
                        (processPurchase tx42 True live_sys))) (productId tx42) = Completed"
proof -
  have h1: "getStatus live_sys (productId tx42) \<noteq> Validating"
    and h2: "getStatus live_sys (productId coins_anon) \<noteq> Validating"
    and t1: "getType live_sys (productId tx42) = PaidSubscription"
    and t2: "getType live_sys (productId coins_anon) = Consumable"
    by (simp_all add: sys_defs conc_defs)
  have fr: "FinishRejected Nullish = FinishResolved \<or> FinishRejected Nullish = FinishRejected Nullish"
    and fv: "FinishRejected (Reason ''declined'') = FinishResolved
             \<or> FinishRejected (Reason ''declined'') = FinishRejected (Reason ''declined'')"
    by simp_all
  from success_path [OF live_sys_live h1 fr fv, of True]
    success_path [OF live_sys_live h2 fr fv, of False]
    t1 t2
  show ?thesis by (simp add: sys_defs conc_defs Let_def)
qed


section \<open>Claims about the listeners\<close>

text \<open>
  Claim C6, as stated, has \<^verbatim>\<open>removeListeners\<close> invalidate the generation token. It does
  not: after listeners were added and removed, this processor is still the active one and
  a purchase event handed to it is processed (its validation is started).
\<close>

theorem stop_keeps_token_counterexample:
  "globalsGet stopped_sys active_key = Some (this_id stopped_sys)
   \<and> processPurchase tx42 True stopped_sys \<noteq> (stopped_sys, Done (Inr Undefined))
   \<and> snd (processPurchase tx42 True stopped_sys) = AwaitValidate tx42 True"
  by (simp add: stopped_sys_def removeListeners_def addListeners_def sys_defs conc_defs Let_def)

text \<open>
  Claim C6, amended: \<^verbatim>\<open>removeListeners\<close> unsubscribes both raw event channels and clears
  both subscription handles; it leaves the generation token (and the processor's id)
  as they were, so the processor stays the active one; called when not started it
  changes nothing but the log.
\<close>

theorem removeListeners_effect:
  "globals (removeListeners s) = globals s \<and> this_id (removeListeners s) = this_id s \<and>
   onPurchaseUpdate (removeListeners s) = None \<and> onPurchaseError (removeListeners s) = None \<and>
   (\<forall>h. onPurchaseUpdate s = Some h \<longrightarrow> h \<notin> set (updateListeners (removeListeners s))) \<and>
   (\<forall>h. onPurchaseError s = Some h \<longrightarrow> h \<notin> set (errorListeners (removeListeners s))) \<and>
   (onPurchaseUpdate s = None \<and> onPurchaseError s = None \<longrightarrow>
      removeListeners s = logger LInfo ''removeListeners'' s)"
  by (auto simp add: removeListeners_def remove_handle_def logger_def Let_def)

theorem removeListeners_effect_witness:
  "onPurchaseUpdate (addListeners live_sys) = Some 0
   \<and> onPurchaseError (addListeners live_sys) = Some (Suc 0)
   \<and> 0 \<notin> set (updateListeners (removeListeners (addListeners live_sys)))
   \<and> Suc 0 \<notin> set (errorListeners (removeListeners (addListeners live_sys)))
   \<and> globals (removeListeners (addListeners live_sys)) = globals (addListeners live_sys)
   \<and> onPurchaseUpdate live_sys = None \<and> onPurchaseError live_sys = None
   \<and> removeListeners live_sys = logger LInfo ''removeListeners'' live_sys"
proof -
  have a: "onPurchaseUpdate (addListeners live_sys) = Some 0"
    and b: "onPurchaseError (addListeners live_sys) = Some (Suc 0)"
    and c: "onPurchaseUpdate live_sys = None" and d: "onPurchaseError live_sys = None"
    by (simp_all add: addListeners_def sys_defs conc_defs Let_def)
  from removeListeners_effect [of "addListeners live_sys"] removeListeners_effect [of live_sys]
    a b c d
  show ?thesis by simp
qed

section \<open>Claims about interleaved invocations\<close>

text \<open>
  A step of any invocation makes at most one finalize call, and only an invocation that
  was awaiting its validation can make one.
\<close>

lemma resume_finish:
  "finishCalls t (fst (resume tk r s)) + owed t (snd (resume tk r s)) \<le> finishCalls t s + owed t tk"
  by (induction tk r s rule: resume.induct)
    (auto simp add: finishCalls_def sys_defs Let_def split: ProductType.splits)

lemma processPurchase_finish:
  "finishCalls t (fst (processPurchase p bg s)) + owed t (snd (processPurchase p bg s))
     \<le> finishCalls t s + (if transactionId p = Some t then 1 else 0)"
  by (auto simp add: finishCalls_def sys_defs Let_def)

lemma outstanding_update:
  "i < length ts \<Longrightarrow> outstanding t (ts[i := tk]) + owed t (ts ! i) = outstanding t ts + owed t tk"
  by (induction ts arbitrary: i) (auto simp add: outstanding_def split: nat.splits)

lemma exec_finish:
  "finishCalls t (fst (exec a w)) + outstanding t (snd (exec a w))
     \<le> finishCalls t (fst w) + outstanding t (snd w) + (if invokes t a then 1 else 0)"
proof (cases w)
  case (Pair s ts)
  show ?thesis
  proof (cases a)
    case (Invoke p bg)
    with Pair processPurchase_finish [of t p bg s] show ?thesis
      by (cases "processPurchase p bg s") (auto simp add: outstanding_def split: if_splits)
  next
    case (Resolve i r)
    show ?thesis
    proof (cases "i < length ts")
      case True
      with Pair Resolve resume_finish [of t "ts ! i" r s]
        outstanding_update [of i ts t "snd (resume (ts ! i) r s)"]
      show ?thesis by (cases "resume (ts ! i) r s") (auto split: if_splits)
    next
      case False
      with Pair Resolve show ?thesis by simp
    qed
  next
    case (Elapse d)
    with Pair show ?thesis by (simp add: finishCalls_def elapse_def)
  qed
qed

lemma run_finish:
  "finishCalls t (fst (run acts w)) + outstanding t (snd (run acts w))
     \<le> finishCalls t (fst w) + outstanding t (snd w) + deliveries t acts"
proof (induction acts arbitrary: w)
  case Nil
  then show ?case by (simp add: run_def deliveries_def)
next
  case (Cons a acts)
  have "run (a # acts) w = run acts (exec a w)" by (simp add: run_def)
  with Cons [of "exec a w"] exec_finish [of t a w] show ?case
    by (auto simp add: deliveries_def split: if_splits)
qed

text \<open>
  Claim C2, as stated, bounds the finalize calls for a transaction identifier by one over
  any sequence of deliveries. The same subscription event delivered again after its
  first run has completed (its finalize call having failed) is validated and finalized
  a second time.
\<close>

theorem finalize_twice_counterexample:
  "\<not> finishCalls ''tx42'' (fst (run redelivery (live_sys, []))) \<le> 1"
  by (simp add: finishCalls_def run_def redelivery_def sys_defs conc_defs Let_def)

text \<open>
  Claim C2, amended: for every transaction identifier \<open>t\<close> and every interleaving of
  invocations, resumptions and time steps, the finalizer is called for \<open>t\<close> at most once
  per invocation of \<^verbatim>\<open>processPurchase\<close> on an event carrying \<open>t\<close>: the number of finalize
  calls for \<open>t\<close> grows by no more than the number of such invocations.
\<close>

theorem finalize_bounded_by_deliveries:
  "finishCalls t (fst (run acts (s, []))) \<le> finishCalls t s + deliveries t acts"
  using run_finish [of t acts "(s, [])"] by (simp add: outstanding_def)

text \<open>
  Claim C3 (mutual exclusion of validations for one product), evaluated on three events
  for product \<open>p1\<close>: the first is validated as unverified and is being finalized when the
  second arrives and starts validating; the first then completes and overwrites the
  status, so the third, arriving next, starts a validation of its own while the second's
  is still in flight.
\<close>

theorem overlapping_validations:
  "validationsInFlight ''p1'' (run overlap_schedule (live_sys, [])) = 2
   \<and> snd (run overlap_schedule (live_sys, []))
       = [Done (Inr Undefined), AwaitValidate p1_second True, AwaitValidate p1_third True]"
  by (simp add: validationsInFlight_def run_def overlap_schedule_def sys_defs conc_defs Let_def)

section \<open>Claims about the purchase cache\<close>

text \<open>
  Claim C5 (cache retention), evaluated on one event processed at time 0 and delivered
  again at time 30000: the entry is there after the second caching, and at time 60000,
  within 60 seconds of the most recent caching, the timer of the first caching has
  deleted it.
\<close>

theorem recached_purchase_expires_early:
  "purchases (fst (run (butlast recache_schedule) (live_sys, []))) (identity tx42) = Some tx42
   \<and> now (fst (run (butlast recache_schedule) (live_sys, []))) = 30000
   \<and> purchases (fst (run recache_schedule (live_sys, []))) (identity tx42) = None
   \<and> now (fst (run recache_schedule (live_sys, []))) = 60000"
  by (simp add: run_def recache_schedule_def sys_defs conc_defs Let_def)

section \<open>Claims about coalescing\<close>

lemma add_pending:
  assumes "slots q k = Some (e0, st)" and "\<forall>e \<in> set es. extractKey e = k"
  shows "slots (add_all extractKey es q) k = Some (last (e0 # es), st)
       \<and> handled (add_all extractKey es q) = handled q
       \<and> scheduledRuns (add_all extractKey es q) = scheduledRuns q"
  using assms
proof (induction es arbitrary: q e0)
  case Nil
  then show ?case by (simp add: add_all_def)
next
  case (Cons e es)
  let ?q = "add extractKey e q"
  from Cons.prems have q': "slots ?q k = Some (e, st)" "handled ?q = handled q"
    "scheduledRuns ?q = scheduledRuns q"
    by (simp_all add: add_def)
  from Cons.prems have "\<forall>e \<in> set es. extractKey e = k" by simp
  from Cons.IH [OF q'(1) this] q' show ?case by (simp add: add_all_def)
qed

text \<open>
  Claim C4 (coalescing): for a burst of one or more events with the same key, added while
  nothing is scheduled for that key and before the timer fires, no call of \<open>add\<close> runs
  the handler, exactly one run is scheduled, and when the timer fires the handler runs
  once, on the last event added; a further firing runs nothing.
\<close>

theorem coalescing:
  assumes "es \<noteq> []" and "\<forall>e \<in> set es. extractKey e = k" and "slots q k = None"
  shows "handled (add_all extractKey es q) = handled q
       \<and> scheduledRuns (add_all extractKey es q) = Suc (scheduledRuns q)
       \<and> handled (fire k (add_all extractKey es q)) = handled q @ [last es]
       \<and> handled (fire k (fire k (add_all extractKey es q))) = handled q @ [last es]"
proof -
  from assms(1) obtain e rest where es: "es = e # rest" by (cases es) auto
  let ?q = "add extractKey e q"
  from assms es have q': "slots ?q k = Some (e, Scheduled)" "handled ?q = handled q"
    "scheduledRuns ?q = Suc (scheduledRuns q)"
    by (simp_all add: add_def)
  from assms es have "\<forall>x \<in> set rest. extractKey x = k" by simp
  from add_pending [OF q'(1) this] q' es
  have "slots (add_all extractKey es q) k = Some (last es, Scheduled)"
    "handled (add_all extractKey es q) = handled q"
    "scheduledRuns (add_all extractKey es q) = Suc (scheduledRuns q)"
    by (simp_all add: add_all_def)
  then show ?thesis by (simp add: fire_def)
qed

theorem coalescing_witness:
  "burst \<noteq> [] \<and> map purchaseKey burst = [''tx42'', ''tx42'', ''tx42'']
   \<and> slots (empty_queue :: Purchase DebouncedProcessor) ''tx42'' = None
   \<and> handled (add_all purchaseKey burst empty_queue) = []
   \<and> scheduledRuns (add_all purchaseKey burst empty_queue) = Suc 0
   \<and> handled (fire ''tx42'' (add_all purchaseKey burst empty_queue)) = [tx42\<lparr>payload := 2\<rparr>]
   \<and> handled (fire ''tx42'' (fire ''tx42'' (add_all purchaseKey burst empty_queue)))
        = [tx42\<lparr>payload := 2\<rparr>]"
proof -
  have ne: "burst \<noteq> []" by (simp add: burst_def)
  have keys: "map purchaseKey burst = [''tx42'', ''tx42'', ''tx42'']"
    by (simp add: burst_def purchaseKey_def tx42_def)
  then have same: "\<forall>e \<in> set burst. purchaseKey e = ''tx42''"
    by (simp add: burst_def)
  have free: "slots (empty_queue :: Purchase DebouncedProcessor) ''tx42'' = None"
    by (simp add: empty_queue_def)
  have lst: "last burst = tx42\<lparr>payload := 2\<rparr>" by (simp add: burst_def)
  have h: "handled (empty_queue :: Purchase DebouncedProcessor) = []"
    and r: "scheduledRuns (empty_queue :: Purchase DebouncedProcessor) = 0"
    by (simp_all add: empty_queue_def)
  from coalescing [OF ne same free] ne keys free lst h r show ?thesis by simp
qed

text \<open>
  Claim C10 (events without a transaction identifier): such an event is cached under its
  product identifier and its dedup key is the empty string; two such events, whatever
  their products, have the same key, and added one after the other to the purchase queue
  with nothing scheduled for that key they schedule one run, which handles the second
  event only.
\<close>

theorem missing_transaction_id:
  assumes "transactionId p = None" and "transactionId p' = None"
    and "globalsGet s active_key = Some (this_id s)" and "slots q '''' = None"
  shows "identity p = productId p \<and> purchaseKey p = '''' \<and> purchaseKey p' = purchaseKey p
       \<and> purchases (fst (processPurchase p bg s)) (productId p) = Some p
       \<and> handled (fire '''' (add purchaseKey p' (add purchaseKey p q))) = handled q @ [p']
       \<and> scheduledRuns (add purchaseKey p' (add purchaseKey p q)) = Suc (scheduledRuns q)"
  using assms by (simp add: sys_defs purchaseKey_def add_def fire_def Let_def)

theorem missing_transaction_id_witness:
  "transactionId coins_anon = None \<and> transactionId sub1_anon = None
   \<and> productId coins_anon \<noteq> productId sub1_anon
   \<and> globalsGet live_sys active_key = Some (this_id live_sys)
   \<and> slots (empty_queue :: Purchase DebouncedProcessor) '''' = None
   \<and> identity coins_anon = ''coins'' \<and> purchaseKey coins_anon = ''''
   \<and> purchaseKey sub1_anon = purchaseKey coins_anon
   \<and> purchases (fst (processPurchase coins_anon True live_sys)) ''coins'' = Some coins_anon
   \<and> handled (fire '''' (add purchaseKey sub1_anon (add purchaseKey coins_anon empty_queue)))
        = [sub1_anon]"
proof -
  have a: "transactionId coins_anon = None" and b: "transactionId sub1_anon = None"
    and c: "productId coins_anon \<noteq> productId sub1_anon"
    and pid: "productId coins_anon = ''coins''"
    by (simp_all add: coins_anon_def sub1_anon_def)
  have free: "slots (empty_queue :: Purchase DebouncedProcessor) '''' = None"
    and h: "handled (empty_queue :: Purchase DebouncedProcessor) = []"
    by (simp_all add: empty_queue_def)
  from missing_transaction_id [OF a b live_sys_live free, of True] a b c pid live_sys_live free h
  show ?thesis by simp
qed

end
